theory Spec2Isabelle
  imports Complex_Main
begin

section \<open>Numeric model\<close>

text \<open>
  The kinematics engine of \<^verbatim>\<open>robot_kinematics.py\<close> computes with numpy arrays of
  double-precision numbers. The embedding reads every number as a \<^typ>\<open>real\<close> and every
  arithmetic operation as the exact one: a 1-D array is a list of reals, a 2-D array is the
  list of its rows. Rounding, overflow and NaN are outside this model; every statement below
  is a statement about the algorithm in exact arithmetic.

  Exceptions are values: a function that can raise returns \<open>error + 'a\<close>, with \<open>Inl\<close>
  for the exception.
\<close>

type_synonym vec = "real list"
type_synonym mat = "real list list"

datatype error = ValueError | IndexError | LinAlgError

definition bind :: "error + 'a \<Rightarrow> ('a \<Rightarrow> error + 'b) \<Rightarrow> error + 'b" where
  "bind m f = (case m of Inl e \<Rightarrow> Inl e | Inr x \<Rightarrow> f x)"

subsection \<open>Array operations\<close>

definition dot :: "vec \<Rightarrow> vec \<Rightarrow> real" where
  "dot u v = sum_list (map2 (*) u v)"

definition ncols :: "mat \<Rightarrow> nat" where
  "ncols A = (case A of [] \<Rightarrow> 0 | r # _ \<Rightarrow> length r)"

definition col :: "mat \<Rightarrow> nat \<Rightarrow> vec" where
  "col A j = map (\<lambda>r. r ! j) A"

definition mat_T :: "mat \<Rightarrow> mat" where
  "mat_T A = map (col A) [0..<ncols A]"

text \<open>\<^verbatim>\<open>A @ B\<close> for two 2-D arrays whose shapes agree.\<close>

definition mat_mul :: "mat \<Rightarrow> mat \<Rightarrow> mat" where
  "mat_mul A B = map (\<lambda>r. map (\<lambda>j. dot r (col B j)) [0..<ncols B]) A"

text \<open>\<^verbatim>\<open>np.eye(n)\<close> and \<^verbatim>\<open>np.zeros((m, n))\<close>.\<close>

definition eye :: "nat \<Rightarrow> mat" where
  "eye n = map (\<lambda>i. map (\<lambda>j. if i = j then 1 else 0) [0..<n]) [0..<n]"

definition zeros :: "nat \<Rightarrow> nat \<Rightarrow> mat" where
  "zeros m n = replicate m (replicate n 0)"

section \<open>Forward kinematics\<close>

text \<open>A DH parameter tuple \<open>(a, alpha, d, theta_offset)\<close>; the chain is their list.\<close>

type_synonym dh_param = "real \<times> real \<times> real \<times> real"

text \<open>\<^verbatim>\<open>RobotKinematics.dh_transform\<close>, lines 25 to 39.\<close>

definition dh_transform :: "real \<Rightarrow> real \<Rightarrow> real \<Rightarrow> real \<Rightarrow> mat" where
  "dh_transform a alpha d theta =
     (let ct = cos theta; st = sin theta; ca = cos alpha; sa = sin alpha
      in [[ct, - st * ca, st * sa, a * ct],
          [st, ct * ca, - ct * sa, a * st],
          [0, sa, ca, d],
          [0, 0, 0, 1]])"

text \<open>
  The loop of \<^verbatim>\<open>forward_kinematics\<close>, lines 56 to 59: \<open>i\<close> is the counter of
  \<^verbatim>\<open>enumerate\<close>, \<open>transform\<close> the accumulated product.
\<close>

fun fk_loop :: "dh_param list \<Rightarrow> vec \<Rightarrow> nat \<Rightarrow> mat \<Rightarrow> mat" where
  "fk_loop [] joint_angles i transform = transform"
| "fk_loop ((a, alpha, d, theta_offset) # ps) joint_angles i transform =
     (let theta = joint_angles ! i + theta_offset;
          link_transform = dh_transform a alpha d theta
      in fk_loop ps joint_angles (Suc i) (mat_mul transform link_transform))"

text \<open>
  \<^verbatim>\<open>RobotKinematics.forward_kinematics\<close>, lines 41 to 61. The length test comes first,
  so every read \<open>joint_angles ! i\<close> of the loop is in range.
\<close>

definition forward_kinematics :: "dh_param list \<Rightarrow> vec \<Rightarrow> error + mat" where
  "forward_kinematics dh_params joint_angles =
     (if length joint_angles \<noteq> length dh_params then Inl ValueError
      else Inr (fk_loop dh_params joint_angles 0 (eye 4)))"

text \<open>
  The per-link transform \<open>T_i\<close> of the specification: the DH matrix at
  \<open>theta = joint_vector[i] + theta_offset\<close>.
\<close>

definition link_transform :: "dh_param \<Rightarrow> real \<Rightarrow> mat" where
  "link_transform p q = (case p of (a, alpha, d, theta_offset) \<Rightarrow>
     dh_transform a alpha d (q + theta_offset))"

definition chained_product :: "dh_param list \<Rightarrow> vec \<Rightarrow> mat" where
  "chained_product dh_params joint_vector =
     foldl mat_mul (eye 4) (map2 link_transform dh_params joint_vector)"

section \<open>Linear algebra of numpy, in exact arithmetic\<close>

text \<open>
  \<^verbatim>\<open>np.linalg.inv\<close> and \<^verbatim>\<open>np.linalg.solve\<close> are library calls. They are modelled by
  what they compute in exact arithmetic: the determinant by expansion along the first row,
  the inverse by cofactors, and \<^verbatim>\<open>LinAlgError\<close> exactly for a singular (or non-square)
  matrix.
\<close>

definition drop_at :: "nat \<Rightarrow> 'a list \<Rightarrow> 'a list" where
  "drop_at k xs = take k xs @ drop (Suc k) xs"

fun det :: "mat \<Rightarrow> real" where
  "det [] = 1"
| "det (r # rs) = (\<Sum>j\<leftarrow>[0..<length r]. (- 1) ^ j * r ! j * det (map (drop_at j) rs))"

definition square :: "mat \<Rightarrow> bool" where
  "square A = list_all (\<lambda>r. length r = length A) A"

definition cofactor :: "mat \<Rightarrow> nat \<Rightarrow> nat \<Rightarrow> real" where
  "cofactor A i j = (- 1) ^ (i + j) * det (map (drop_at j) (drop_at i A))"

definition linalg_inv :: "mat \<Rightarrow> error + mat" where
  "linalg_inv A =
     (if \<not> square A then Inl LinAlgError
      else if det A = 0 then Inl LinAlgError
      else Inr (map (\<lambda>i. map (\<lambda>j. cofactor A j i / det A) [0..<length A]) [0..<length A]))"

text \<open>
  \<^verbatim>\<open>np.linalg.solve(A, b)\<close> with a 2-D \<open>b\<close>: the rows of \<open>b\<close> must be as many as
  those of \<open>A\<close> (a \<^verbatim>\<open>ValueError\<close> of the shape check, before any computation); a
  singular \<open>A\<close> raises \<^verbatim>\<open>LinAlgError\<close>; otherwise the result is the one \<open>X\<close> with
  \<open>A X = b\<close>.
\<close>

definition linalg_solve :: "mat \<Rightarrow> mat \<Rightarrow> error + mat" where
  "linalg_solve A b =
     (if \<not> square A then Inl LinAlgError
      else if length b \<noteq> length A then Inl ValueError
      else bind (linalg_inv A) (\<lambda>Ai. Inr (mat_mul Ai b)))"

text \<open>\<^verbatim>\<open>np.linalg.norm\<close> of a 1-D array.\<close>

definition linalg_norm :: "vec \<Rightarrow> real" where
  "linalg_norm v = sqrt (sum_list (map (\<lambda>x. x * x) v))"

text \<open>
  \<^verbatim>\<open>A @ B\<close> where the shape of an operand is not fixed by the code: the inner dimensions
  must agree, or numpy raises \<^verbatim>\<open>ValueError\<close>. A 2-D array with no rows has lost its
  column count in the list of rows; its product with a vector is the empty vector.
\<close>

definition matmul :: "mat \<Rightarrow> mat \<Rightarrow> error + mat" where
  "matmul A B = (if ncols A \<noteq> length B then Inl ValueError else Inr (mat_mul A B))"

definition matvec :: "mat \<Rightarrow> vec \<Rightarrow> error + vec" where
  "matvec A v =
     (if A = [] then Inr []
      else if ncols A \<noteq> length v then Inl ValueError
      else Inr (map (\<lambda>r. dot r v) A))"

text \<open>
  \<^verbatim>\<open>x += y\<close> on 1-D arrays: elementwise when the lengths agree, \<open>y\<close> broadcast when it
  has one element, \<^verbatim>\<open>ValueError\<close> otherwise.
\<close>

definition iadd :: "vec \<Rightarrow> vec \<Rightarrow> error + vec" where
  "iadd x y =
     (if length y = length x then Inr (map2 (+) x y)
      else if length y = 1 then Inr (map (\<lambda>a. a + hd y) x)
      else Inl ValueError)"

definition mat_sub :: "mat \<Rightarrow> mat \<Rightarrow> mat" where
  "mat_sub A B = map2 (map2 (-)) A B"

definition mat_div :: "mat \<Rightarrow> real \<Rightarrow> mat" where
  "mat_div A c = map (map (\<lambda>x. x / c)) A"

section \<open>Jacobian estimator\<close>

definition epsilon :: real where
  "epsilon = 1 / 10 ^ 6"

text \<open>
  The two slice assignments \<^verbatim>\<open>jacobian[:3, i] = ...\<close> and \<^verbatim>\<open>jacobian[3:, i] = ...\<close>
  of lines 142 to 147 together write the six entries of column \<open>i\<close>.
\<close>

definition set_col :: "mat \<Rightarrow> nat \<Rightarrow> vec \<Rightarrow> mat" where
  "set_col J i v = map2 (\<lambda>row x. row[i := x]) J v"

text \<open>Lines 139 to 147: the column computed from the two perturbed poses.\<close>

definition jacobian_column :: "mat \<Rightarrow> mat \<Rightarrow> vec" where
  "jacobian_column pose_plus pose_minus =
     (let diff = mat_div (mat_sub pose_plus pose_minus) (2 * epsilon)
      in [diff ! 0 ! 3, diff ! 1 ! 3, diff ! 2 ! 3] @
         map ((*) (1 / 2))
           [diff ! 2 ! 1 - diff ! 1 ! 2,
            diff ! 0 ! 2 - diff ! 2 ! 0,
            diff ! 1 ! 0 - diff ! 0 ! 1])"

text \<open>
  The loop of \<^verbatim>\<open>compute_jacobian\<close>, lines 127 to 147, over the indices of
  \<^verbatim>\<open>range(self.num_joints)\<close>. \<open>angles_plus\<close> and \<open>angles_minus\<close> are copies, so the
  caller's array is only read. \<open>calls\<close> counts the evaluations of \<open>forward_kinematics\<close>.
  Writing \<open>angles_plus[i]\<close> beyond the end of the array raises \<^verbatim>\<open>IndexError\<close>.
\<close>

fun jacobian_loop ::
  "dh_param list \<Rightarrow> vec \<Rightarrow> nat list \<Rightarrow> mat \<Rightarrow> nat \<Rightarrow> error + (mat \<times> nat)" where
  "jacobian_loop dh_params joint_angles [] jacobian calls = Inr (jacobian, calls)"
| "jacobian_loop dh_params joint_angles (i # is) jacobian calls =
     (if length joint_angles \<le> i then Inl IndexError
      else
        let angles_plus = joint_angles[i := joint_angles ! i + epsilon] in
        bind (forward_kinematics dh_params angles_plus) (\<lambda>pose_plus.
        let angles_minus = joint_angles[i := joint_angles ! i - epsilon] in
        bind (forward_kinematics dh_params angles_minus) (\<lambda>pose_minus.
        jacobian_loop dh_params joint_angles is
          (set_col jacobian i (jacobian_column pose_plus pose_minus)) (calls + 2))))"

definition compute_jacobian_counted :: "dh_param list \<Rightarrow> vec \<Rightarrow> error + (mat \<times> nat)" where
  "compute_jacobian_counted dh_params joint_angles =
     jacobian_loop dh_params joint_angles [0..<length dh_params]
       (zeros 6 (length dh_params)) 0"

text \<open>\<^verbatim>\<open>RobotKinematics.compute_jacobian\<close>, lines 114 to 149.\<close>

definition compute_jacobian :: "dh_param list \<Rightarrow> vec \<Rightarrow> error + mat" where
  "compute_jacobian dh_params joint_angles =
     bind (compute_jacobian_counted dh_params joint_angles) (\<lambda>(jacobian, calls). Inr jacobian)"

text \<open>
  The column of the specification: the linear part is the difference of the translations
  over \<open>2 epsilon\<close>; the angular part is half the vector extracted from the difference of
  the rotation blocks over \<open>2 epsilon\<close>.
\<close>

definition translation :: "mat \<Rightarrow> vec" where
  "translation pose = [pose ! 0 ! 3, pose ! 1 ! 3, pose ! 2 ! 3]"

definition rotation :: "mat \<Rightarrow> mat" where
  "rotation pose = map (take 3) (take 3 pose)"

definition skew_to_vector :: "mat \<Rightarrow> vec" where
  "skew_to_vector S = [S ! 2 ! 1 - S ! 1 ! 2, S ! 0 ! 2 - S ! 2 ! 0, S ! 1 ! 0 - S ! 0 ! 1]"

definition central_difference_column :: "dh_param list \<Rightarrow> vec \<Rightarrow> nat \<Rightarrow> vec" where
  "central_difference_column dh_params q i =
     (let plus = fk_loop dh_params (q[i := q ! i + epsilon]) 0 (eye 4);
          minus = fk_loop dh_params (q[i := q ! i - epsilon]) 0 (eye 4)
      in map (\<lambda>x. x / (2 * epsilon)) (map2 (-) (translation plus) (translation minus)) @
         map ((*) (1 / 2))
           (skew_to_vector (mat_div (mat_sub (rotation plus) (rotation minus)) (2 * epsilon))))"

text \<open>
  A pose of the data model: four rows of four entries, last row \<open>(0, 0, 0, 1)\<close>, and a
  rotation block \<open>R\<close> with \<open>R\<^sup>T R = I\<close> and determinant 1.
\<close>

definition rigid :: "mat \<Rightarrow> bool" where
  "rigid M \<longleftrightarrow>
     length M = 4 \<and> list_all (\<lambda>r. length r = 4) M \<and> M ! 3 = [0, 0, 0, 1] \<and>
     mat_mul (mat_T (rotation M)) (rotation M) = eye 3 \<and> det (rotation M) = 1"

section \<open>Inverse kinematics\<close>

definition max_iterations :: nat where
  "max_iterations = 100"

definition tolerance :: real where
  "tolerance = 1 / 10 ^ 6"

definition learning_rate :: real where
  "learning_rate = 1 / 10"

text \<open>
  The three \<^verbatim>\<open>return\<close> statements of \<^verbatim>\<open>inverse_kinematics\<close>: line 100 (the error norm is
  below the tolerance), line 110 (the handler of \<^verbatim>\<open>LinAlgError\<close>) and line 112 (after the
  loop). \<open>ik_value\<close> is the Python value each of them returns.
\<close>

datatype ik_exit = Converged vec | Singular | Exhausted

fun ik_value :: "ik_exit \<Rightarrow> vec option" where
  "ik_value (Converged joint_angles) = Some joint_angles"
| "ik_value Singular = None"
| "ik_value Exhausted = None"

datatype ik_step = Stop ik_exit | Continue vec

text \<open>Lines 88 to 96: the six-dimensional error of the current pose against the target.\<close>

definition error_vector :: "mat \<Rightarrow> mat \<Rightarrow> error + vec" where
  "error_vector current_pose target_pose =
     bind (linalg_inv current_pose) (\<lambda>inv_pose.
     bind (matmul inv_pose target_pose) (\<lambda>pose_error.
       if ncols pose_error \<le> 3 then Inl IndexError
       else
         let position_error = [pose_error ! 0 ! 3, pose_error ! 1 ! 3, pose_error ! 2 ! 3];
             orientation_error = map ((*) (1 / 2))
               [pose_error ! 2 ! 1 - pose_error ! 1 ! 2,
                pose_error ! 0 ! 2 - pose_error ! 2 ! 0,
                pose_error ! 1 ! 0 - pose_error ! 0 ! 1]
         in Inr (position_error @ orientation_error)))"

text \<open>
  One pass through the loop body, lines 84 to 110. \<^verbatim>\<open>np.linalg.pinv\<close> is a parameter:
  \<open>pinv J = None\<close> stands for the call raising \<^verbatim>\<open>LinAlgError\<close>, the only exception the
  handler of line 109 catches. Every other exception leaves the function.
\<close>

definition ik_iteration ::
  "(mat \<Rightarrow> mat option) \<Rightarrow> dh_param list \<Rightarrow> mat \<Rightarrow> vec \<Rightarrow> error + ik_step" where
  "ik_iteration pinv dh_params target_pose joint_angles =
     bind (forward_kinematics dh_params joint_angles) (\<lambda>current_pose.
     bind (error_vector current_pose target_pose) (\<lambda>error_vec.
       if linalg_norm error_vec < tolerance then Inr (Stop (Converged joint_angles))
       else
         bind (compute_jacobian dh_params joint_angles) (\<lambda>jacobian.
           case pinv jacobian of
             None \<Rightarrow> Inr (Stop Singular)
           | Some pinv_jacobian \<Rightarrow>
               bind (matvec pinv_jacobian error_vec) (\<lambda>delta_angles.
               bind (iadd joint_angles (map ((*) learning_rate) delta_angles)) (\<lambda>joint_angles'.
                 Inr (Continue joint_angles'))))))"

text \<open>
  The loop \<^verbatim>\<open>for iteration in range(max_iterations)\<close>. The second component of the result
  is the number of passes through the body.
\<close>

function ik_loop ::
  "(mat \<Rightarrow> mat option) \<Rightarrow> dh_param list \<Rightarrow> mat \<Rightarrow> nat \<Rightarrow> vec \<Rightarrow> (error + ik_exit) \<times> nat" where
  "ik_loop pinv dh_params target_pose iteration joint_angles =
     (if max_iterations \<le> iteration then (Inr Exhausted, iteration)
      else
        (case ik_iteration pinv dh_params target_pose joint_angles of
           Inl e \<Rightarrow> (Inl e, Suc iteration)
         | Inr (Stop x) \<Rightarrow> (Inr x, Suc iteration)
         | Inr (Continue joint_angles') \<Rightarrow>
             ik_loop pinv dh_params target_pose (Suc iteration) joint_angles'))"
  by pat_completeness auto
termination
  by (relation "measure (\<lambda>(pinv, dh_params, target_pose, iteration, joint_angles).
        max_iterations - iteration)") auto

declare ik_loop.simps [simp del]

text \<open>
  \<^verbatim>\<open>RobotKinematics.inverse_kinematics\<close>, lines 63 to 112, on values: the initial guess
  defaults to the zero vector and the loop starts from a copy of it.
\<close>

definition inverse_kinematics ::
  "(mat \<Rightarrow> mat option) \<Rightarrow> dh_param list \<Rightarrow> mat \<Rightarrow> vec option \<Rightarrow> error + vec option" where
  "inverse_kinematics pinv dh_params target_pose initial_guess =
     (let initial_guess = (case initial_guess of
            None \<Rightarrow> replicate (length dh_params) 0 | Some g \<Rightarrow> g);
          joint_angles = initial_guess
      in case fst (ik_loop pinv dh_params target_pose 0 joint_angles) of
           Inl e \<Rightarrow> Inl e
         | Inr x \<Rightarrow> Inr (ik_value x))"

text \<open>The iterate reached after \<open>k\<close> passes that all went on to the next pass.\<close>

fun ik_iterate ::
  "(mat \<Rightarrow> mat option) \<Rightarrow> dh_param list \<Rightarrow> mat \<Rightarrow> nat \<Rightarrow> vec \<Rightarrow> vec option" where
  "ik_iterate pinv dh_params target_pose 0 q = Some q"
| "ik_iterate pinv dh_params target_pose (Suc k) q =
     (case ik_iteration pinv dh_params target_pose q of
        Inr (Continue q') \<Rightarrow> ik_iterate pinv dh_params target_pose k q'
      | _ \<Rightarrow> None)"

section \<open>Quintic trajectory planner\<close>

text \<open>\<^verbatim>\<open>TrajectoryPlanner.__init__\<close>, lines 155 to 164, stores the two limits.\<close>

record planner =
  max_velocity :: real
  max_acceleration :: real

definition zeros_like :: "vec \<Rightarrow> vec" where
  "zeros_like v = replicate (length v) 0"

text \<open>
  \<^verbatim>\<open>np.column_stack\<close> of 1-D arrays: each array becomes a column, so \<open>k\<close> arrays of
  length \<open>n\<close> give an array of \<open>n\<close> rows and \<open>k\<close> columns. Arrays of different lengths
  raise \<^verbatim>\<open>ValueError\<close>.
\<close>

definition column_stack :: "vec list \<Rightarrow> error + mat" where
  "column_stack vs =
     (case vs of
        [] \<Rightarrow> Inl ValueError
      | v # _ \<Rightarrow>
          if list_all (\<lambda>u. length u = length v) vs
          then Inr (map (\<lambda>i. map (\<lambda>u. u ! i) vs) [0..<length v])
          else Inl ValueError)"

text \<open>
  \<^verbatim>\<open>np.linspace(start, stop, num)\<close>: \<open>num\<close> points with the constant step
  \<open>(stop - start) / (num - 1)\<close>.
\<close>

definition linspace :: "real \<Rightarrow> real \<Rightarrow> nat \<Rightarrow> vec" where
  "linspace start stop num =
     map (\<lambda>i. start + real i * ((stop - start) / real (num - 1))) [0..<num]"

text \<open>The matrix \<open>A\<close> of lines 200 to 207.\<close>

definition boundary_matrix :: "real \<Rightarrow> real \<Rightarrow> mat" where
  "boundary_matrix t0 tf =
     [[1, t0, t0 ^ 2, t0 ^ 3, t0 ^ 4, t0 ^ 5],
      [0, 1, 2 * t0, 3 * t0 ^ 2, 4 * t0 ^ 3, 5 * t0 ^ 4],
      [0, 0, 2, 6 * t0, 12 * t0 ^ 2, 20 * t0 ^ 3],
      [1, tf, tf ^ 2, tf ^ 3, tf ^ 4, tf ^ 5],
      [0, 1, 2 * tf, 3 * tf ^ 2, 4 * tf ^ 3, 5 * tf ^ 4],
      [0, 0, 2, 6 * tf, 12 * tf ^ 2, 20 * tf ^ 3]]"

definition num_points :: nat where
  "num_points = 100"

text \<open>
  \<^verbatim>\<open>TrajectoryPlanner.plan_trajectory\<close>, lines 166 to 226. The result is the triple of
  the time points, the position samples and the velocity samples; an exception of
  \<^verbatim>\<open>column_stack\<close> or \<^verbatim>\<open>solve\<close> leaves the function before line 213.
\<close>

definition plan_trajectory ::
  "planner \<Rightarrow> vec \<Rightarrow> vec \<Rightarrow> vec option \<Rightarrow> vec option \<Rightarrow> real \<Rightarrow> error + (vec \<times> mat \<times> mat)" where
  "plan_trajectory self start_pos end_pos start_vel end_vel time_horizon =
     (let start_vel = (case start_vel of None \<Rightarrow> zeros_like start_pos | Some v \<Rightarrow> v);
          end_vel = (case end_vel of None \<Rightarrow> zeros_like start_pos | Some v \<Rightarrow> v);
          t0 = 0; tf = time_horizon;
          s0 = start_pos; sf = end_pos;
          v0 = start_vel; vf = end_vel;
          a0 = zeros_like start_pos;
          af = zeros_like start_pos;
          A = boundary_matrix t0 tf
      in bind (column_stack [s0, v0, a0, sf, vf, af]) (\<lambda>b.
         bind (linalg_solve A b) (\<lambda>coefficients.
           let time_points = linspace t0 tf num_points;
               position_trajectory =
                 map (\<lambda>t. map (\<lambda>c. dot c [1, t, t ^ 2, t ^ 3, t ^ 4, t ^ 5])
                        (mat_T coefficients)) time_points;
               velocity_trajectory =
                 map (\<lambda>t. map (\<lambda>c. dot c [0, 1, 2 * t, 3 * t ^ 2, 4 * t ^ 3, 5 * t ^ 4])
                        (mat_T coefficients)) time_points
           in Inr (time_points, position_trajectory, velocity_trajectory))))"

section \<open>Inverse kinematics on a store of arrays\<close>

text \<open>
  Whether the caller's array survives a call depends on which array each statement
  writes. Here arrays live in a store: \<open>cells\<close> maps a reference to the contents of the
  array, and \<open>next_ref\<close> is the first reference not yet in use.
\<close>

record store =
  cells :: "nat \<Rightarrow> vec option"
  next_ref :: nat

text \<open>A new array, as \<^verbatim>\<open>np.zeros(n)\<close> and \<^verbatim>\<open>x.copy()\<close> make one.\<close>

definition alloc :: "vec \<Rightarrow> store \<Rightarrow> nat \<times> store" where
  "alloc v s = (next_ref s, s\<lparr>cells := (cells s)(next_ref s \<mapsto> v), next_ref := Suc (next_ref s)\<rparr>)"

definition contents :: "store \<Rightarrow> nat \<Rightarrow> vec" where
  "contents s r = (case cells s r of None \<Rightarrow> [] | Some v \<Rightarrow> v)"

text \<open>
  The loop on the store. \<open>joint_angles\<close> is a reference; line 108 writes the array it
  points to, and line 100 returns the reference itself.
\<close>

function ik_loop_store ::
  "(mat \<Rightarrow> mat option) \<Rightarrow> dh_param list \<Rightarrow> mat \<Rightarrow> nat \<Rightarrow> nat \<Rightarrow> store \<Rightarrow>
     (error + nat option) \<times> store" where
  "ik_loop_store pinv dh_params target_pose iteration joint_angles s =
     (if max_iterations \<le> iteration then (Inr None, s)
      else
        (case ik_iteration pinv dh_params target_pose (contents s joint_angles) of
           Inl e \<Rightarrow> (Inl e, s)
         | Inr (Stop (Converged q)) \<Rightarrow> (Inr (Some joint_angles), s)
         | Inr (Stop Singular) \<Rightarrow> (Inr None, s)
         | Inr (Stop Exhausted) \<Rightarrow> (Inr None, s)
         | Inr (Continue q') \<Rightarrow>
             ik_loop_store pinv dh_params target_pose (Suc iteration) joint_angles
               (s\<lparr>cells := (cells s)(joint_angles \<mapsto> q')\<rparr>)))"
  by pat_completeness auto
termination
  by (relation "measure (\<lambda>(pinv, dh_params, target_pose, iteration, joint_angles, s).
        max_iterations - iteration)") auto

declare ik_loop_store.simps [simp del]

text \<open>
  \<^verbatim>\<open>inverse_kinematics\<close> on the store, lines 75 to 112: without a guess a zero array is
  made (line 76); \<^verbatim>\<open>initial_guess.copy()\<close> of line 78 makes the array the loop works on.
\<close>

definition inverse_kinematics_store ::
  "(mat \<Rightarrow> mat option) \<Rightarrow> dh_param list \<Rightarrow> mat \<Rightarrow> nat option \<Rightarrow> store \<Rightarrow>
     (error + nat option) \<times> store" where
  "inverse_kinematics_store pinv dh_params target_pose initial_guess s =
     (let (initial_guess, s1) = (case initial_guess of
            None \<Rightarrow> alloc (replicate (length dh_params) 0) s
          | Some g \<Rightarrow> (g, s));
          (joint_angles, s2) = alloc (contents s1 initial_guess) s1
      in ik_loop_store pinv dh_params target_pose 0 joint_angles s2)"

text \<open>
  Two instances of \<^verbatim>\<open>np.linalg.pinv\<close> for the examples. \<open>pinv_raises\<close> is a call that
  raises \<^verbatim>\<open>LinAlgError\<close>. \<open>pinv_column\<close> is the pseudo-inverse of a matrix with one
  column \<open>c\<close>, as a one-joint chain has it: the row \<open>c / (c . c)\<close>, and the zero row
  when \<open>c\<close> is zero.
\<close>

definition pinv_raises :: "mat \<Rightarrow> mat option" where
  "pinv_raises J = None"

definition pinv_column :: "mat \<Rightarrow> mat option" where
  "pinv_column J =
     (let c = col J 0; n = dot c c
      in Some [map (\<lambda>x. if n = 0 then 0 else x / n) c])"

text \<open>A store with one array, \<open>[0.0]\<close>, at reference 0.\<close>

definition example_store :: store where
  "example_store = \<lparr>cells = Map.empty(0 \<mapsto> [0]), next_ref = 1\<rparr>"

section \<open>Properties of forward kinematics\<close>

lemma fk_loop_foldl:
  "i + length ps = length q \<Longrightarrow>
   fk_loop ps q i T = foldl mat_mul T (map2 link_transform ps (drop i q))"
proof (induction ps arbitrary: i T)
  case Nil
  then show ?case by simp
next
  case (Cons p ps)
  obtain a alpha d off where p: "p = (a, alpha, d, off)"
    by (cases p) auto
  from Cons.prems have lt: "i < length q" by simp
  then have dr: "drop i q = q ! i # drop (Suc i) q"
    by (simp add: Cons_nth_drop_Suc)
  from Cons.prems have "Suc i + length ps = length q" by simp
  then have "fk_loop ps q (Suc i) (mat_mul T (dh_transform a alpha d (q ! i + off))) =
      foldl mat_mul (mat_mul T (dh_transform a alpha d (q ! i + off)))
        (map2 link_transform ps (drop (Suc i) q))"
    by (rule Cons.IH)
  then show ?case
    by (simp add: p dr link_transform_def)
qed

text \<open>
  Claim C1. For a chain of N DH tuples and a joint vector of length N,
  \<open>forward_kinematics\<close> returns the product, taken left to right from the 4x4 identity,
  of the per-link DH matrices at \<open>theta = joint_vector[i] + theta_offset\<close>. The result is a
  function of the chain and the vector alone.
\<close>

theorem forward_kinematics_chained:
  "length joint_vector = length dh_params \<Longrightarrow>
   forward_kinematics dh_params joint_vector = Inr (chained_product dh_params joint_vector)"
  using fk_loop_foldl [of 0 dh_params joint_vector "eye 4"]
  by (simp add: forward_kinematics_def chained_product_def)

theorem forward_kinematics_chained_witness:
  "length [0 :: real] = length [(1 :: real, 0 :: real, 2 :: real, 0 :: real)] \<and>
   forward_kinematics [(1, 0, 2, 0)] [0] =
     Inr [[1, 0, 0, 1], [0, 1, 0, 0], [0, 0, 1, 2], [0, 0, 0, 1]]"
  using forward_kinematics_chained [of "[0]" "[(1, 0, 2, 0)]"]
  by (simp add: chained_product_def link_transform_def dh_transform_def mat_mul_def eye_def
      col_def dot_def ncols_def upt_rec)

section \<open>Determinants\<close>

lemma eye3: "eye 3 = [[1, 0, 0], [0, 1, 0], [0, 0, 1]]"
  by (simp add: eye_def upt_rec)

lemma eye4: "eye 4 = [[1, 0, 0, 0], [0, 1, 0, 0], [0, 0, 1, 0], [0, 0, 0, 1]]"
  by (simp add: eye_def upt_rec)

lemma drop_at_0: "drop_at 0 xs = tl xs"
  by (simp add: drop_at_def drop_Suc)

text \<open>A first row \<open>(a, 0, ..., 0)\<close> leaves one term of the expansion.\<close>

lemma det_unit_row: "det ((a # replicate n 0) # rs) = a * det (map tl rs)"
proof -
  have upt: "[0..<Suc n] = 0 # map Suc [0..<n]"
    by (simp add: upt_conv_Cons map_Suc_upt del: upt_Suc)
  have zero:
    "map (\<lambda>j. (- 1) ^ Suc j * (replicate n (0::real) ! j) * det (map (drop_at (Suc j)) rs)) [0..<n]
      = map (\<lambda>j. 0) [0..<n]"
    by (rule map_cong) auto
  have "det ((a # replicate n 0) # rs) =
      a * det (map (drop_at 0) rs) +
      sum_list (map (\<lambda>j. (- 1) ^ Suc j * (replicate n 0 ! j) * det (map (drop_at (Suc j)) rs))
        [0..<n])"
    by (simp add: upt comp_def del: upt_Suc)
  also have "\<dots> = a * det (map tl rs)"
    unfolding zero by (simp add: drop_at_0 cong: map_cong)
  finally show ?thesis .
qed

lemma det_unit_row4: "det ([a, 0, 0, 0] # rs) = a * det (map tl rs)"
  using det_unit_row [of a "Suc (Suc (Suc 0))" rs] by (simp only: replicate.simps)

lemma det_unit_row5: "det ([a, 0, 0, 0, 0] # rs) = a * det (map tl rs)"
  using det_unit_row [of a "Suc (Suc (Suc (Suc 0)))" rs] by (simp only: replicate.simps)

lemma det_unit_row6: "det ([a, 0, 0, 0, 0, 0] # rs) = a * det (map tl rs)"
  using det_unit_row [of a "Suc (Suc (Suc (Suc (Suc 0))))" rs] by (simp only: replicate.simps)

lemma det3:
  "det [[a, b, c], [d, e, f], [g, h, i]] =
     a * (e * i - f * h) - b * (d * i - f * g) + c * (d * h - e * g)"
  by (simp add: drop_at_def upt_rec algebra_simps)

text \<open>The determinant of a pose is that of its rotation block.\<close>

lemma det4_homog:
  "det [[a, b, c, x], [d, e, f, y], [g, h, i, z], [0, 0, 0, 1]] =
   det [[a, b, c], [d, e, f], [g, h, i]]"
  by (simp add: drop_at_def upt_rec algebra_simps)

text \<open>The matrix of cofactors, transposed, times the pose: the determinant on the diagonal.\<close>

lemma adj4_homog:
  "mat_mul (map (\<lambda>m. map (\<lambda>n. cofactor [[a, b, c, x], [d, e, f, y], [g, h, i, z], [0, 0, 0, 1]] n m)
       [0..<4]) [0..<4]) [[a, b, c, x], [d, e, f, y], [g, h, i, z], [0, 0, 0, 1]] =
   map (map ((*) (det [[a, b, c], [d, e, f], [g, h, i]]))) (eye 4)"
  unfolding eye4
  by (simp add: cofactor_def mat_mul_def col_def dot_def ncols_def drop_at_def upt_rec
      algebra_simps)

declare det.simps [simp del]

section \<open>Properties of the trajectory planner\<close>

text \<open>The boundary matrix at \<open>t0 = 0\<close> has determinant \<open>4 tf^9\<close>.\<close>

lemma det_boundary: "det (boundary_matrix 0 tf) = 4 * tf ^ 9"
proof -
  have "det (boundary_matrix 0 tf) =
    det ([1, 0, 0, 0, 0, 0] #
      [[0, 1, 0, 0, 0, 0], [0, 0, 2, 0, 0, 0], [1, tf, tf ^ 2, tf ^ 3, tf ^ 4, tf ^ 5],
       [0, 1, 2 * tf, 3 * tf ^ 2, 4 * tf ^ 3, 5 * tf ^ 4],
       [0, 0, 2, 6 * tf, 12 * tf ^ 2, 20 * tf ^ 3]])"
    by (simp add: boundary_matrix_def)
  also have "\<dots> = 2 * det [[tf ^ 3, tf ^ 4, tf ^ 5],
       [3 * tf ^ 2, 4 * tf ^ 3, 5 * tf ^ 4],
       [6 * tf, 12 * tf ^ 2, 20 * tf ^ 3]]"
    by (simp only: det_unit_row6 det_unit_row5 det_unit_row4 list.map list.sel mult_1)
  also have "\<dots> = 4 * tf ^ 9"
    unfolding det3 by (simp add: algebra_simps eval_nat_numeral)
  finally show ?thesis .
qed

lemma square_boundary: "square (boundary_matrix t0 tf)"
  by (simp add: square_def boundary_matrix_def)

lemma length_boundary: "length (boundary_matrix t0 tf) = 6"
  by (simp add: boundary_matrix_def)

lemma column_stack_length: "column_stack (v # vs) = Inr b \<Longrightarrow> length b = length v"
  by (auto simp: column_stack_def split: if_splits)

lemma column_stack_error: "column_stack vs = Inl e \<Longrightarrow> e = ValueError"
  by (auto simp: column_stack_def split: if_splits list.splits)

text \<open>
  \<open>column_stack\<close> puts the six boundary vectors in the columns of \<open>b\<close>, so \<open>b\<close> has as
  many rows as the positions have components; \<open>solve\<close> wants six.
\<close>

lemma plan_trajectory_wrong_dimension:
  assumes "length start_pos \<noteq> 6"
  shows "plan_trajectory self start_pos end_pos start_vel end_vel time_horizon = Inl ValueError"
proof -
  let ?vs = "[(case start_vel of None \<Rightarrow> zeros_like start_pos | Some v \<Rightarrow> v),
       zeros_like start_pos, end_pos,
       (case end_vel of None \<Rightarrow> zeros_like start_pos | Some v \<Rightarrow> v), zeros_like start_pos]"
  show ?thesis
  proof (cases "column_stack (start_pos # ?vs)")
    case (Inl e)
    then have "e = ValueError" by (rule column_stack_error)
    with Inl show ?thesis
      by (simp add: plan_trajectory_def bind_def Let_def)
  next
    case (Inr b)
    then have "length b = length start_pos" by (rule column_stack_length)
    with assms Inr show ?thesis
      by (simp add: plan_trajectory_def bind_def Let_def linalg_solve_def square_boundary
          length_boundary)
  qed
qed

lemma plan_trajectory_singular_only_at_zero:
  assumes "plan_trajectory self start_pos end_pos start_vel end_vel time_horizon = Inl LinAlgError"
  shows "time_horizon = 0"
proof (rule ccontr)
  assume "time_horizon \<noteq> 0"
  then have d: "det (boundary_matrix 0 time_horizon) \<noteq> 0"
    by (simp add: det_boundary)
  from assms show False
    by (auto simp: plan_trajectory_def bind_def Let_def linalg_solve_def linalg_inv_def
        square_boundary length_boundary d split: sum.splits if_splits dest: column_stack_error)
qed

lemma plan_trajectory_zero_fails:
  "isl (plan_trajectory self start_pos end_pos start_vel end_vel 0)"
  by (auto simp: plan_trajectory_def bind_def Let_def linalg_solve_def linalg_inv_def
      square_boundary length_boundary det_boundary split: sum.splits)

lemma linalg_solve_regular:
  assumes "square A" and "length b = length A" and "det A \<noteq> 0"
  shows "\<not> isl (linalg_solve A b)"
  using assms by (simp add: linalg_solve_def linalg_inv_def bind_def)

lemma plan_trajectory_six:
  assumes "length start_pos = 6" and "length end_pos = 6" and "time_horizon \<noteq> 0"
  shows "\<not> isl (plan_trajectory self start_pos end_pos None None time_horizon)"
proof -
  let ?z = "zeros_like start_pos"
  from assms have "list_all (\<lambda>u. length u = length start_pos) [start_pos, ?z, ?z, end_pos, ?z, ?z]"
    by (simp add: zeros_like_def)
  then obtain b where b: "column_stack [start_pos, ?z, ?z, end_pos, ?z, ?z] = Inr b"
    by (simp add: column_stack_def)
  then have "length b = 6"
    using assms(1) by (simp add: column_stack_length)
  moreover from assms(3) have "det (boundary_matrix 0 time_horizon) \<noteq> 0"
    by (simp add: det_boundary)
  ultimately have "\<not> isl (linalg_solve (boundary_matrix 0 time_horizon) b)"
    by (simp add: linalg_solve_regular square_boundary length_boundary)
  then obtain X where "linalg_solve (boundary_matrix 0 time_horizon) b = Inr X"
    by (cases "linalg_solve (boundary_matrix 0 time_horizon) b") auto
  with b show ?thesis
    by (simp add: plan_trajectory_def bind_def Let_def)
qed

lemma plan_trajectory_six_zero:
  assumes "length start_pos = 6" and "length end_pos = 6"
  shows "plan_trajectory self start_pos end_pos None None 0 = Inl LinAlgError"
proof -
  let ?z = "zeros_like start_pos"
  from assms have "list_all (\<lambda>u. length u = length start_pos) [start_pos, ?z, ?z, end_pos, ?z, ?z]"
    by (simp add: zeros_like_def)
  then obtain b where b: "column_stack [start_pos, ?z, ?z, end_pos, ?z, ?z] = Inr b"
    by (simp add: column_stack_def)
  then have "length b = 6"
    using assms(1) by (simp add: column_stack_length)
  then have "linalg_solve (boundary_matrix 0 0) b = Inl LinAlgError"
    by (simp add: linalg_solve_def linalg_inv_def bind_def square_boundary length_boundary
        det_boundary)
  with b show ?thesis
    by (simp add: plan_trajectory_def bind_def Let_def)
qed

text \<open>
  Claim C4, as the code has it. The boundary matrix is singular exactly at duration 0, not
  at every duration \<open>\<le> 0\<close>: \<open>plan_trajectory\<close> raises \<^verbatim>\<open>LinAlgError\<close> only at duration 0,
  and at duration 0 every call fails. A failed call returns an exception and no samples:
  the sampling of lines 213 to 224 comes after \<^verbatim>\<open>solve\<close>.
\<close>

theorem plan_trajectory_unsolvable:
  "(plan_trajectory self start_pos end_pos start_vel end_vel duration = Inl LinAlgError
      \<longrightarrow> duration = 0) \<and>
   (duration = 0 \<longrightarrow> isl (plan_trajectory self start_pos end_pos start_vel end_vel duration)) \<and>
   (det (boundary_matrix 0 duration) = 0 \<longleftrightarrow> duration = 0)"
  using plan_trajectory_singular_only_at_zero [of self start_pos end_pos start_vel end_vel duration]
    plan_trajectory_zero_fails [of self start_pos end_pos start_vel end_vel]
  by (auto simp: det_boundary)

theorem plan_trajectory_unsolvable_witness:
  "plan_trajectory \<lparr>max_velocity = 1, max_acceleration = 1 / 2\<rparr>
     [0, 0, 0, 0, 0, 0] [1, 1, 1, 1, 1, 1] None None 0 = Inl LinAlgError \<and>
   isl (plan_trajectory \<lparr>max_velocity = 1, max_acceleration = 1 / 2\<rparr>
     [0, 0, 0, 0, 0, 0] [1, 1, 1, 1, 1, 1] None None 0) \<and>
   det (boundary_matrix 0 0) = 0"
  using plan_trajectory_unsolvable [of "\<lparr>max_velocity = 1, max_acceleration = 1 / 2\<rparr>"
      "[0, 0, 0, 0, 0, 0]" "[1, 1, 1, 1, 1, 1]" None None 0]
    plan_trajectory_six_zero [of "[0, 0, 0, 0, 0, 0]" "[1, 1, 1, 1, 1, 1]"
      "\<lparr>max_velocity = 1, max_acceleration = 1 / 2\<rparr>"]
  by simp

text \<open>
  Claim C4 as stated fails at duration \<open>-1\<close>: the duration is \<open>\<le> 0\<close>, the boundary matrix has
  determinant \<open>-4\<close>, and the call on six-component positions returns samples.
\<close>

theorem plan_trajectory_negative_duration:
  "(- 1 :: real) \<le> 0 \<and>
   det (boundary_matrix 0 (- 1)) = - 4 \<and>
   \<not> isl (plan_trajectory \<lparr>max_velocity = 1, max_acceleration = 1 / 2\<rparr>
     [0, 0, 0, 0, 0, 0] [1, 1, 1, 1, 1, 1] None None (- 1))"
  using plan_trajectory_six [of "[0, 0, 0, 0, 0, 0]" "[1, 1, 1, 1, 1, 1]" "- 1"
      "\<lparr>max_velocity = 1, max_acceleration = 1 / 2\<rparr>"]
  by (simp add: det_boundary)

text \<open>
  Claim C5, at the scenario of the specification. With three-component positions
  \<^verbatim>\<open>column_stack\<close> builds a 3x6 array and \<^verbatim>\<open>np.linalg.solve\<close> rejects it against the 6x6
  matrix: the call raises \<^verbatim>\<open>ValueError\<close> and returns no samples.
\<close>

theorem plan_trajectory_scenario_raises:
  "plan_trajectory \<lparr>max_velocity = 1 / 2, max_acceleration = 1 / 5\<rparr>
     [3 / 10, 0, 2 / 10] [5 / 10, 3 / 10, 4 / 10] None None 2 = Inl ValueError"
  by (simp add: plan_trajectory_wrong_dimension)

text \<open>
  Claim C9. Two planners with any limits return the same result on the same input: the
  configured \<open>max_velocity\<close> and \<open>max_acceleration\<close> are never read by \<open>plan_trajectory\<close>.
\<close>

theorem plan_trajectory_ignores_limits:
  "plan_trajectory \<lparr>max_velocity = v1, max_acceleration = a1\<rparr>
     start_pos end_pos start_vel end_vel duration =
   plan_trajectory \<lparr>max_velocity = v2, max_acceleration = a2\<rparr>
     start_pos end_pos start_vel end_vel duration"
  by (simp add: plan_trajectory_def)

section \<open>Rigid poses\<close>

lemma list4: "length xs = 4 \<Longrightarrow> \<exists>a b c d. xs = [a, b, c, d]"
  by (auto simp: numeral_eq_Suc length_Suc_conv)

lemma gram3:
  "mat_mul (mat_T [[a, b, c], [d, e, f], [g, h, i]]) [[a, b, c], [d, e, f], [g, h, i]] =
   [[a*a + d*d + g*g, a*b + d*e + g*h, a*c + d*f + g*i],
    [b*a + e*d + h*g, b*b + e*e + h*h, b*c + e*f + h*i],
    [c*a + f*d + i*g, c*b + f*e + i*h, c*c + f*f + i*i]]"
  by (simp add: mat_mul_def mat_T_def col_def dot_def ncols_def upt_rec)

lemma mat_mul3:
  "mat_mul [[a, b, c], [d, e, f], [g, h, i]] [[p, q, r], [s, t, u], [v, w, x]] =
   [[a*p + b*s + c*v, a*q + b*t + c*w, a*r + b*u + c*x],
    [d*p + e*s + f*v, d*q + e*t + f*w, d*r + e*u + f*x],
    [g*p + h*s + i*v, g*q + h*t + i*w, g*r + h*u + i*x]]"
  by (simp add: mat_mul_def col_def dot_def ncols_def upt_rec)

lemma det_mult3:
  "det (mat_mul [[a, b, c], [d, e, f], [g, h, i]] [[p, q, r], [s, t, u], [v, w, x]]) =
   det [[a, b, c], [d, e, f], [g, h, i]] * det [[p, q, r], [s, t, u], [v, w, x]]"
  unfolding mat_mul3 det3 by (simp add: algebra_simps)

lemma gram_mult3:
  "mat_mul (mat_T (mat_mul [[a, b, c], [d, e, f], [g, h, i]] [[p, q, r], [s, t, u], [v, w, x]]))
     (mat_mul [[a, b, c], [d, e, f], [g, h, i]] [[p, q, r], [s, t, u], [v, w, x]]) =
   mat_mul (mat_T [[p, q, r], [s, t, u], [v, w, x]])
     (mat_mul (mat_mul (mat_T [[a, b, c], [d, e, f], [g, h, i]]) [[a, b, c], [d, e, f], [g, h, i]])
        [[p, q, r], [s, t, u], [v, w, x]])"
  unfolding gram3 mat_mul3
  by (simp add: mat_mul_def mat_T_def col_def dot_def ncols_def upt_rec algebra_simps)


lemma rotation4:
  "rotation [[a, b, c, x], [d, e, f, y], [g, h, i, z], r3] = [[a, b, c], [d, e, f], [g, h, i]]"
  by (simp add: rotation_def numeral_eq_Suc)

lemma mat_mul_dh:
  "mat_mul [[a, b, c, x], [d, e, f, y], [g, h, i, z], [0, 0, 0, 1]] (dh_transform l al dd th) =
   (let R = mat_mul [[a, b, c], [d, e, f], [g, h, i]]
              [[cos th, - sin th * cos al, sin th * sin al],
               [sin th, cos th * cos al, - cos th * sin al],
               [0, sin al, cos al]]
    in [R ! 0 @ [a * (l * cos th) + b * (l * sin th) + c * dd + x],
        R ! 1 @ [d * (l * cos th) + e * (l * sin th) + f * dd + y],
        R ! 2 @ [g * (l * cos th) + h * (l * sin th) + i * dd + z],
        [0, 0, 0, 1]])"
  by (simp add: mat_mul_def dh_transform_def col_def dot_def ncols_def upt_rec Let_def)

lemma trig_entries:
  fixes ct st ca sa :: real
  assumes "ct * ct + st * st = 1" and "ca * ca + sa * sa = 1"
  shows "ct * (- st * ca) + st * (ct * ca) + 0 * sa = 0"
    and "ct * (st * sa) + st * (- ct * sa) + 0 * ca = 0"
    and "- st * ca * (- st * ca) + ct * ca * (ct * ca) + sa * sa = 1"
    and "- st * ca * (st * sa) + ct * ca * (- ct * sa) + sa * ca = 0"
    and "st * sa * (st * sa) + - ct * sa * (- ct * sa) + ca * ca = 1"
    and "ct * (ct * ca * ca - - ct * sa * sa) - - st * ca * (st * ca - - ct * sa * 0) +
         st * sa * (st * sa - ct * ca * 0) = 1"
proof -
  show "ct * (- st * ca) + st * (ct * ca) + 0 * sa = 0" by simp
  show "ct * (st * sa) + st * (- ct * sa) + 0 * ca = 0" by simp
  have "- st * ca * (- st * ca) + ct * ca * (ct * ca) + sa * sa =
      (ct * ct + st * st) * (ca * ca) + sa * sa"
    by (simp add: algebra_simps)
  then show "- st * ca * (- st * ca) + ct * ca * (ct * ca) + sa * sa = 1"
    by (simp only: assms mult_1)
  have "- st * ca * (st * sa) + ct * ca * (- ct * sa) + sa * ca =
      sa * ca - (ct * ct + st * st) * (sa * ca)"
    by (simp add: algebra_simps)
  then show "- st * ca * (st * sa) + ct * ca * (- ct * sa) + sa * ca = 0"
    by (simp only: assms mult_1 diff_self)
  have "st * sa * (st * sa) + - ct * sa * (- ct * sa) + ca * ca =
      (ct * ct + st * st) * (sa * sa) + ca * ca"
    by (simp add: algebra_simps)
  then show "st * sa * (st * sa) + - ct * sa * (- ct * sa) + ca * ca = 1"
    using assms by (simp only: mult_1 add.commute)
  have "ct * (ct * ca * ca - - ct * sa * sa) - - st * ca * (st * ca - - ct * sa * 0) +
         st * sa * (st * sa - ct * ca * 0) =
      (ct * ct + st * st) * (ca * ca + sa * sa)"
    by (simp add: algebra_simps)
  then show "ct * (ct * ca * ca - - ct * sa * sa) - - st * ca * (st * ca - - ct * sa * 0) +
         st * sa * (st * sa - ct * ca * 0) = 1"
    by (simp only: assms mult_1)
qed

lemma trig_unit: "cos (t::real) * cos t + sin t * sin t = 1"
  using sin_cos_squared_add2 [of t] by (simp add: power2_eq_square)

lemma gram_dh:
  "mat_mul (mat_T [[cos th, - sin th * cos al, sin th * sin al],
               [sin th, cos th * cos al, - cos th * sin al],
               [0, sin al, cos al]])
     [[cos th, - sin th * cos al, sin th * sin al],
               [sin th, cos th * cos al, - cos th * sin al],
               [0, sin al, cos al]] = eye 3"
proof -
  note t = trig_entries [OF trig_unit [of th] trig_unit [of al]]
  have c: "\<And>x y :: real. x * y + 0 = x * y" by simp
  show ?thesis
    unfolding gram3 eye3
    apply (simp only: list.inject simp_thms)
    apply (intro conjI)
    using t trig_unit [of th] apply (simp_all add: mult.commute)
    done
qed

lemma det_dh:
  "det [[cos th, - sin th * cos al, sin th * sin al],
               [sin th, cos th * cos al, - cos th * sin al],
               [0, sin al, cos al]] = 1"
  unfolding det3 using trig_entries(6) [OF trig_unit [of th] trig_unit [of al]] by simp

lemma mat_mul_eye3_left:
  "mat_mul (eye 3) [[p, q, r], [s, t, u], [v, w, x]] = [[p, q, r], [s, t, u], [v, w, x]]"
  unfolding eye3 mat_mul3 by simp

lemma rigidE:
  assumes "rigid M"
  obtains a b c x d e f y g h i z where
    "M = [[a, b, c, x], [d, e, f, y], [g, h, i, z], [0, 0, 0, 1]]"
    "mat_mul (mat_T [[a, b, c], [d, e, f], [g, h, i]]) [[a, b, c], [d, e, f], [g, h, i]] = eye 3"
    "det [[a, b, c], [d, e, f], [g, h, i]] = 1"
proof -
  from assms have len: "length M = 4" and rows: "list_all (\<lambda>r. length r = 4) M"
    and last: "M ! 3 = [0, 0, 0, 1]"
    and gram: "mat_mul (mat_T (rotation M)) (rotation M) = eye 3" and d: "det (rotation M) = 1"
    by (simp_all add: rigid_def)
  from len obtain r0 r1 r2 r3 where M: "M = [r0, r1, r2, r3]"
    using list4 by blast
  from rows M have "length r0 = 4" "length r1 = 4" "length r2 = 4" by simp_all
  then obtain a b c x d' e f y g h i z where
    r: "r0 = [a, b, c, x]" "r1 = [d', e, f, y]" "r2 = [g, h, i, z]"
    using list4 by metis
  from last M have r3: "r3 = [0, 0, 0, 1]" by (simp add: numeral_eq_Suc)
  have M': "M = [[a, b, c, x], [d', e, f, y], [g, h, i, z], [0, 0, 0, 1]]"
    by (simp add: M r r3)
  show ?thesis
    using that [OF M'] gram d unfolding M' rotation4 by simp
qed

lemma rigidI:
  assumes "mat_mul (mat_T [[a, b, c], [d, e, f], [g, h, i]]) [[a, b, c], [d, e, f], [g, h, i]] = eye 3"
    and "det [[a, b, c], [d, e, f], [g, h, i]] = 1"
  shows "rigid [[a, b, c, x], [d, e, f, y], [g, h, i, z], [0, 0, 0, 1]]"
  using assms unfolding rigid_def rotation4 by (simp add: numeral_eq_Suc)

lemma rigid_eye: "rigid (eye 4)"
  unfolding eye4 by (rule rigidI) (simp_all add: gram3 eye3 det3)

lemma rigid_step:
  assumes "rigid M"
  shows "rigid (mat_mul M (dh_transform l al dd th))"
proof -
  from assms obtain a b c x d e f y g h i z where
    M: "M = [[a, b, c, x], [d, e, f, y], [g, h, i, z], [0, 0, 0, 1]]"
    and gram: "mat_mul (mat_T [[a, b, c], [d, e, f], [g, h, i]]) [[a, b, c], [d, e, f], [g, h, i]] = eye 3"
    and d: "det [[a, b, c], [d, e, f], [g, h, i]] = 1"
    by (rule rigidE)
  let ?R = "[[a, b, c], [d, e, f], [g, h, i]]"
  let ?L = "[[cos th, - sin th * cos al, sin th * sin al],
               [sin th, cos th * cos al, - cos th * sin al],
               [0, sin al, cos al]]"
  obtain p q r s t u v w k where P: "mat_mul ?R ?L = [[p, q, r], [s, t, u], [v, w, k]]"
    unfolding mat_mul3 by blast
  have g': "mat_mul (mat_T (mat_mul ?R ?L)) (mat_mul ?R ?L) = eye 3"
    unfolding gram_mult3 gram mat_mul_eye3_left gram_dh ..
  have d': "det (mat_mul ?R ?L) = 1"
    unfolding det_mult3 d det_dh by simp
  have "mat_mul M (dh_transform l al dd th) =
      [[p, q, r, a * (l * cos th) + b * (l * sin th) + c * dd + x],
       [s, t, u, d * (l * cos th) + e * (l * sin th) + f * dd + y],
       [v, w, k, g * (l * cos th) + h * (l * sin th) + i * dd + z],
       [0, 0, 0, 1]]"
    unfolding M mat_mul_dh P by (simp add: Let_def)
  moreover have "rigid \<dots>"
    using g' d' unfolding P by (rule rigidI)
  ultimately show ?thesis by simp
qed

lemma rigid_fk_loop: "rigid T \<Longrightarrow> rigid (fk_loop ps q i T)"
  by (induction ps q i T rule: fk_loop.induct) (simp_all add: rigid_step Let_def)

section \<open>Properties of the inverse kinematics loop\<close>

text \<open>At the pose of the current joint vector the error vector is zero.\<close>

lemma error_vector_self:
  assumes "rigid M"
  shows "error_vector M M = Inr [0, 0, 0, 0, 0, 0]"
proof -
  from assms obtain a b c x d e f y g h i z where
    M: "M = [[a, b, c, x], [d, e, f, y], [g, h, i, z], [0, 0, 0, 1]]"
    and d: "det [[a, b, c], [d, e, f], [g, h, i]] = 1"
    by (rule rigidE)
  let ?adj = "map (\<lambda>m. map (\<lambda>n. cofactor M n m) [0..<4]) [0..<4]"
  have sq: "square M" by (simp add: M square_def)
  have dM: "det M = 1" unfolding M det4_homog by (rule d)
  have len: "length M = 4" by (simp add: M)
  have inv: "linalg_inv M = Inr ?adj"
    using sq dM by (simp add: linalg_inv_def len)
  have nc: "ncols ?adj = 4" by (simp add: ncols_def upt_rec)
  have prod: "mat_mul ?adj M = eye 4"
    unfolding M adj4_homog d by (simp add: eye4)
  have "matmul ?adj M = Inr (eye 4)"
    unfolding matmul_def nc prod by (simp add: M)
  then show ?thesis
    unfolding error_vector_def inv by (simp add: bind_def eye4 ncols_def)
qed

lemma linalg_norm_zero: "linalg_norm [0, 0, 0, 0, 0, 0] = 0"
  by (simp add: linalg_norm_def)

lemma ik_iteration_at_target:
  assumes "length q = length dh"
  shows "ik_iteration pinv dh (fk_loop dh q 0 (eye 4)) q = Inr (Stop (Converged q))"
proof -
  have r: "rigid (fk_loop dh q 0 (eye 4))"
    by (rule rigid_fk_loop) (rule rigid_eye)
  show ?thesis
    using assms
    by (simp add: ik_iteration_def forward_kinematics_def bind_def error_vector_self [OF r]
        linalg_norm_zero tolerance_def)
qed

lemma ik_loop_stop:
  assumes "iteration < max_iterations" and "ik_iteration pinv dh T q = Inr (Stop x)"
  shows "ik_loop pinv dh T iteration q = (Inr x, Suc iteration)"
  using assms by (subst ik_loop.simps) simp

lemma ik_loop_error:
  assumes "iteration < max_iterations" and "ik_iteration pinv dh T q = Inl e"
  shows "ik_loop pinv dh T iteration q = (Inl e, Suc iteration)"
  using assms by (subst ik_loop.simps) simp

lemma ik_loop_continue:
  assumes "iteration < max_iterations" and "ik_iteration pinv dh T q = Inr (Continue q')"
  shows "ik_loop pinv dh T iteration q = ik_loop pinv dh T (Suc iteration) q'"
  using assms by (subst ik_loop.simps) simp

lemma ik_loop_exhausted:
  assumes "max_iterations \<le> iteration"
  shows "ik_loop pinv dh T iteration q = (Inr Exhausted, iteration)"
  using assms by (subst ik_loop.simps) simp

lemma ik_loop_iterate:
  assumes "ik_iterate pinv dh T k q = Some q'" and "j + k \<le> max_iterations"
  shows "ik_loop pinv dh T j q = ik_loop pinv dh T (j + k) q'"
  using assms
proof (induction k arbitrary: j q)
  case 0
  then show ?case by simp
next
  case (Suc k)
  from Suc.prems(1) obtain q1 where
    step: "ik_iteration pinv dh T q = Inr (Continue q1)"
    and rest: "ik_iterate pinv dh T k q1 = Some q'"
    by (auto split: sum.splits ik_step.splits)
  from Suc.prems(2) have "j < max_iterations" by simp
  then have "ik_loop pinv dh T j q = ik_loop pinv dh T (Suc j) q1"
    using step by (rule ik_loop_continue)
  also have "\<dots> = ik_loop pinv dh T (Suc j + k) q'"
    using rest Suc.prems(2) by (intro Suc.IH) simp_all
  finally show ?case by simp
qed

lemma ik_loop_count:
  "snd (ik_loop pinv dh T j q) \<le> max j max_iterations"
proof (induction pinv dh T j q rule: ik_loop.induct)
  case (1 pinv dh T j q)
  show ?case
  proof (cases "max_iterations \<le> j")
    case True
    then show ?thesis by (simp add: ik_loop_exhausted)
  next
    case False
    then have lt: "j < max_iterations" by simp
    show ?thesis
    proof (cases "ik_iteration pinv dh T q")
      case (Inl e)
      with lt show ?thesis by (simp add: ik_loop_error)
    next
      case (Inr s)
      show ?thesis
      proof (cases s)
        case (Stop x)
        with Inr lt show ?thesis by (simp add: ik_loop_stop)
      next
        case (Continue q')
        with Inr False have "snd (ik_loop pinv dh T (Suc j) q') \<le> max (Suc j) max_iterations"
          by (intro "1.IH") simp_all
        with Inr Continue lt show ?thesis
          by (simp add: ik_loop_continue)
      qed
    qed
  qed
qed

section \<open>Properties of the Jacobian estimator\<close>

lemma length_jacobian_column: "length (jacobian_column P M) = 6"
  by (simp add: jacobian_column_def Let_def)

lemma length_set_col: "length v = length J \<Longrightarrow> length (set_col J i v) = length J"
  by (simp add: set_col_def)

lemma rows_set_col:
  "list_all (\<lambda>r. length r = n) J \<Longrightarrow> list_all (\<lambda>r. length r = n) (set_col J i v)"
  by (auto simp: set_col_def list_all_iff dest: set_zip_leftD)

lemma col_set_col_same:
  assumes "length v = length J" and "list_all (\<lambda>r. length r = n) J" and "i < n"
  shows "col (set_col J i v) i = v"
  using assms
proof (induction J arbitrary: v)
  case Nil
  then show ?case by (simp add: col_def set_col_def)
next
  case (Cons r J)
  then obtain x v' where v: "v = x # v'" by (cases v) auto
  with Cons show ?case by (simp add: col_def set_col_def)
qed

lemma col_set_col_other:
  assumes "length v = length J" and "j \<noteq> i"
  shows "col (set_col J i v) j = col J j"
  using assms
proof (induction J arbitrary: v)
  case Nil
  then show ?case by (simp add: col_def set_col_def)
next
  case (Cons r J)
  then obtain x v' where v: "v = x # v'" by (cases v) auto
  with Cons show ?case by (simp add: col_def set_col_def)
qed

lemma jacobian_loop_columns:
  assumes "length q = length dh" and "list_all (\<lambda>i. i < length q) is" and "distinct is"
    and "length J = 6" and "list_all (\<lambda>r. length r = length q) J"
  shows "\<exists>J'. jacobian_loop dh q is J c = Inr (J', c + 2 * length is) \<and>
      length J' = 6 \<and> list_all (\<lambda>r. length r = length q) J' \<and>
      (\<forall>i\<in>set is. col J' i =
         jacobian_column (fk_loop dh (q[i := q ! i + epsilon]) 0 (eye 4))
           (fk_loop dh (q[i := q ! i - epsilon]) 0 (eye 4))) \<and>
      (\<forall>j. j \<notin> set is \<longrightarrow> col J' j = col J j)"
  using assms(2-)
proof (induction "is" arbitrary: J c)
  case Nil
  then show ?case by simp
next
  case (Cons i "is")
  let ?v = "jacobian_column (fk_loop dh (q[i := q ! i + epsilon]) 0 (eye 4))
           (fk_loop dh (q[i := q ! i - epsilon]) 0 (eye 4))"
  let ?J1 = "set_col J i ?v"
  from Cons.prems have i: "i < length q" and rest: "list_all (\<lambda>i. i < length q) is"
    and d: "distinct is" and ni: "i \<notin> set is" by simp_all
  have lv: "length ?v = length J" using Cons.prems(3) by (simp add: length_jacobian_column)
  have l1: "length ?J1 = 6" using lv Cons.prems(3) by (simp add: length_set_col)
  have r1: "list_all (\<lambda>r. length r = length q) ?J1"
    using Cons.prems(4) by (rule rows_set_col)
  from Cons.IH [OF rest d l1 r1, of "c + 2"] obtain J' where
    run: "jacobian_loop dh q is ?J1 (c + 2) = Inr (J', c + 2 + 2 * length is)"
    and len: "length J' = 6" and rows: "list_all (\<lambda>r. length r = length q) J'"
    and cols: "\<forall>k\<in>set is. col J' k =
         jacobian_column (fk_loop dh (q[k := q ! k + epsilon]) 0 (eye 4))
           (fk_loop dh (q[k := q ! k - epsilon]) 0 (eye 4))"
    and others: "\<forall>j. j \<notin> set is \<longrightarrow> col J' j = col ?J1 j"
    by blast
  have step: "jacobian_loop dh q (i # is) J c = jacobian_loop dh q is ?J1 (c + 2)"
    using i assms(1) by (simp add: forward_kinematics_def bind_def Let_def)
  have ci: "col J' i = ?v"
    using others ni col_set_col_same [OF lv Cons.prems(4) i] by simp
  have oth: "\<forall>j. j \<notin> set (i # is) \<longrightarrow> col J' j = col J j"
    using others col_set_col_other [OF lv] by simp
  show ?case
    using step run len rows cols ci oth by simp
qed

lemma jacobian_column_spec:
  assumes "rigid P" and "rigid M"
  shows "jacobian_column P M =
     map (\<lambda>x. x / (2 * epsilon)) (map2 (-) (translation P) (translation M)) @
     map ((*) (1 / 2))
       (skew_to_vector (mat_div (mat_sub (rotation P) (rotation M)) (2 * epsilon)))"
proof -
  from assms(1) obtain a b c x d e f y g h i z where
    P: "P = [[a, b, c, x], [d, e, f, y], [g, h, i, z], [0, 0, 0, 1]]"
    by (rule rigidE)
  from assms(2) obtain a' b' c' x' d' e' f' y' g' h' i' z' where
    M: "M = [[a', b', c', x'], [d', e', f', y'], [g', h', i', z'], [0, 0, 0, 1]]"
    by (rule rigidE)
  show ?thesis
    unfolding P M rotation4
    by (simp add: jacobian_column_def translation_def skew_to_vector_def mat_div_def
        mat_sub_def Let_def numeral_eq_Suc)
qed

lemma compute_jacobian_columns:
  assumes "length q = length dh"
  shows "\<exists>J. compute_jacobian_counted dh q = Inr (J, 2 * length dh) \<and>
      compute_jacobian dh q = Inr J \<and>
      length J = 6 \<and> list_all (\<lambda>r. length r = length dh) J \<and>
      (\<forall>i<length dh. col J i = central_difference_column dh q i)"
proof -
  have "list_all (\<lambda>i. i < length q) [0..<length dh]"
    using assms by (simp add: list_all_iff)
  moreover have "distinct [0..<length dh]" by simp
  moreover have "length (zeros 6 (length dh)) = 6" by (simp add: zeros_def)
  moreover have "list_all (\<lambda>r. length r = length q) (zeros 6 (length dh))"
    using assms by (simp add: zeros_def list_all_iff)
  ultimately obtain J where
    run: "jacobian_loop dh q [0..<length dh] (zeros 6 (length dh)) 0 =
       Inr (J, 0 + 2 * length [0..<length dh])"
    and len: "length J = 6" and rows: "list_all (\<lambda>r. length r = length q) J"
    and cols: "\<forall>i\<in>set [0..<length dh]. col J i =
         jacobian_column (fk_loop dh (q[i := q ! i + epsilon]) 0 (eye 4))
           (fk_loop dh (q[i := q ! i - epsilon]) 0 (eye 4))"
    using jacobian_loop_columns [OF assms, of "[0..<length dh]" "zeros 6 (length dh)" 0]
    by blast
  have spec: "\<And>i. jacobian_column (fk_loop dh (q[i := q ! i + epsilon]) 0 (eye 4))
           (fk_loop dh (q[i := q ! i - epsilon]) 0 (eye 4)) = central_difference_column dh q i"
    by (simp add: jacobian_column_spec rigid_fk_loop rigid_eye central_difference_column_def
        Let_def)
  from run have cc: "compute_jacobian_counted dh q = Inr (J, 2 * length dh)"
    by (simp add: compute_jacobian_counted_def)
  then have "compute_jacobian dh q = Inr J"
    by (simp add: compute_jacobian_def bind_def)
  with cc len rows cols spec assms show ?thesis by simp
qed

section \<open>Orthonormality, round trip and central differences\<close>

lemma fk_example:
  "forward_kinematics [(1, 0, 2, 0)] [0] =
     Inr [[1, 0, 0, 1], [0, 1, 0, 0], [0, 0, 1, 2], [0, 0, 0, 1]]"
  by (simp add: forward_kinematics_def dh_transform_def mat_mul_def eye_def
      col_def dot_def ncols_def upt_rec)

text \<open>
  Claim C7. For every chain and every joint vector of the chain's length (so also for
  every vector with components in \<open>[-\<pi>, \<pi>]\<close>), the rotation block \<open>R\<close> of the pose
  returned by \<open>forward_kinematics\<close> is orthonormal: \<open>R\<^sup>T R\<close> is the identity, exactly
  and so within every tolerance, and \<open>det R = 1\<close>.
\<close>

theorem forward_kinematics_orthonormal:
  "length q = length dh \<Longrightarrow>
   \<exists>pose. forward_kinematics dh q = Inr pose \<and>
     mat_mul (mat_T (rotation pose)) (rotation pose) = eye 3 \<and> det (rotation pose) = 1"
proof -
  assume "length q = length dh"
  moreover have "rigid (fk_loop dh q 0 (eye 4))"
    by (rule rigid_fk_loop) (rule rigid_eye)
  ultimately show ?thesis
    by (simp add: forward_kinematics_def rigid_def)
qed

theorem forward_kinematics_orthonormal_witness:
  "mat_mul (mat_T (rotation [[1, 0, 0, 1], [0, 1, 0, 0], [0, 0, 1, 2], [0, 0, 0, 1]]))
     (rotation [[1, 0, 0, 1], [0, 1, 0, 0], [0, 0, 1, 2], [0, 0, 0, 1]]) = eye 3 \<and>
   det (rotation [[1, 0, 0, 1], [0, 1, 0, 0], [0, 0, 1, 2], [0, 0, 0, 1]]) = 1"
  using forward_kinematics_orthonormal [of "[0]" "[(1, 0, 2, 0)]"]
  by (simp add: fk_example)

text \<open>
  Claim C2. For every joint vector \<open>q\<close> of the chain's length,
  \<open>inverse_kinematics (forward_kinematics q)\<close> with initial guess \<open>q\<close> succeeds and returns
  \<open>q\<close> itself, whose forward kinematics is the target pose. And whenever the loop reaches,
  in fewer than 100 passes, an iterate whose error norm is below the tolerance, the solver
  returns that iterate.
\<close>

theorem inverse_kinematics_roundtrip:
  "(length q = length dh \<longrightarrow>
      (\<exists>pose. forward_kinematics dh q = Inr pose \<and>
         inverse_kinematics pinv dh pose (Some q) = Inr (Some q))) \<and>
   (ik_iterate pinv dh target k q0 = Some qk \<and> k < max_iterations \<and>
    forward_kinematics dh qk = Inr current \<and> error_vector current target = Inr e \<and>
    linalg_norm e < tolerance \<longrightarrow>
      inverse_kinematics pinv dh target (Some q0) = Inr (Some qk))"
proof (intro conjI impI)
  assume len: "length q = length dh"
  have "ik_loop pinv dh (fk_loop dh q 0 (eye 4)) 0 q = (Inr (Converged q), Suc 0)"
    by (rule ik_loop_stop) (simp_all add: max_iterations_def ik_iteration_at_target [OF len])
  with len show "\<exists>pose. forward_kinematics dh q = Inr pose \<and>
         inverse_kinematics pinv dh pose (Some q) = Inr (Some q)"
    by (simp add: forward_kinematics_def inverse_kinematics_def)
next
  assume a: "ik_iterate pinv dh target k q0 = Some qk \<and> k < max_iterations \<and>
    forward_kinematics dh qk = Inr current \<and> error_vector current target = Inr e \<and>
    linalg_norm e < tolerance"
  then have stop: "ik_iteration pinv dh target qk = Inr (Stop (Converged qk))"
    by (simp add: ik_iteration_def bind_def)
  from a have "ik_loop pinv dh target 0 q0 = ik_loop pinv dh target (0 + k) qk"
    by (intro ik_loop_iterate) simp_all
  also have "\<dots> = (Inr (Converged qk), Suc k)"
    using a stop by (simp add: ik_loop_stop)
  finally show "inverse_kinematics pinv dh target (Some q0) = Inr (Some qk)"
    by (simp add: inverse_kinematics_def)
qed

lemma error_vector_example:
  "error_vector [[1, 0, 0, 1], [0, 1, 0, 0], [0, 0, 1, 2], [0, 0, 0, 1]]
     [[1, 0, 0, 1], [0, 1, 0, 0], [0, 0, 1, 2], [0, 0, 0, 1]] = Inr [0, 0, 0, 0, 0, 0]"
  by (rule error_vector_self) (rule rigidI, simp_all add: gram3 eye3 det3)

theorem inverse_kinematics_roundtrip_witness:
  "inverse_kinematics pinv_raises [(1, 0, 2, 0)]
     [[1, 0, 0, 1], [0, 1, 0, 0], [0, 0, 1, 2], [0, 0, 0, 1]] (Some [0]) = Inr (Some [0]) \<and>
   (0 :: nat) < max_iterations \<and> linalg_norm [0, 0, 0, 0, 0, 0] < tolerance"
  using inverse_kinematics_roundtrip [of "[0]" "[(1, 0, 2, 0)]" pinv_raises
      "[[1, 0, 0, 1], [0, 1, 0, 0], [0, 0, 1, 2], [0, 0, 0, 1]]" 0 "[0]" "[0]"
      "[[1, 0, 0, 1], [0, 1, 0, 0], [0, 0, 1, 2], [0, 0, 0, 1]]" "[0, 0, 0, 0, 0, 0]"]
  by (simp add: fk_example error_vector_example linalg_norm_zero tolerance_def max_iterations_def)

text \<open>
  Claim C6. For a joint vector of the chain's length \<open>N\<close> and a joint index \<open>i < N\<close>,
  \<open>compute_jacobian\<close> returns a 6xN matrix whose column \<open>i\<close> is the central difference
  of the specification: the difference of the translations at \<open>q[i] + epsilon\<close> and
  \<open>q[i] - epsilon\<close> over \<open>2 epsilon\<close>, then half the vector extracted from the difference
  of the rotation blocks over \<open>2 epsilon\<close>. It evaluates \<open>forward_kinematics\<close> \<open>2 N\<close> times.
\<close>

theorem compute_jacobian_central_difference:
  "length q = length dh \<Longrightarrow> i < length dh \<Longrightarrow>
   \<exists>J. compute_jacobian_counted dh q = Inr (J, 2 * length dh) \<and>
       compute_jacobian dh q = Inr J \<and>
       length J = 6 \<and> list_all (\<lambda>r. length r = length dh) J \<and>
       col J i = central_difference_column dh q i"
  using compute_jacobian_columns [of q dh] by auto

lemma central_difference_example:
  "central_difference_column [(1, 0, 2, 0)] [0] 0 =
     [0, sin epsilon / epsilon, 0, 0, 0, sin epsilon / epsilon]"
  by (simp add: central_difference_column_def dh_transform_def mat_mul_def eye_def
      col_def dot_def ncols_def upt_rec translation_def rotation_def skew_to_vector_def
      mat_div_def mat_sub_def numeral_eq_Suc Let_def)

theorem compute_jacobian_central_difference_witness:
  "\<exists>J. compute_jacobian_counted [(1, 0, 2, 0)] [0] = Inr (J, 2) \<and>
       compute_jacobian [(1, 0, 2, 0)] [0] = Inr J \<and>
       col J 0 = [0, sin epsilon / epsilon, 0, 0, 0, sin epsilon / epsilon]"
  using compute_jacobian_central_difference [of "[0]" "[(1, 0, 2, 0)]" 0]
  by (auto simp: central_difference_example)

section \<open>Termination and failure of inverse kinematics\<close>

lemma ik_iteration_continueD:
  assumes "ik_iteration pinv dh T q = Inr (Continue q')"
  shows "\<exists>pose e J P d. forward_kinematics dh q = Inr pose \<and> error_vector pose T = Inr e \<and>
      \<not> linalg_norm e < tolerance \<and> compute_jacobian dh q = Inr J \<and> pinv J = Some P \<and>
      matvec P e = Inr d \<and> iadd q (map ((*) learning_rate) d) = Inr q' \<and>
      (length d = length q \<longrightarrow> q' = map2 (\<lambda>x y. x + learning_rate * y) q d)"
proof -
  from assms obtain pose where fk: "forward_kinematics dh q = Inr pose"
    by (cases "forward_kinematics dh q") (simp_all add: ik_iteration_def bind_def)
  from assms fk obtain e where ev: "error_vector pose T = Inr e"
    by (cases "error_vector pose T") (simp_all add: ik_iteration_def bind_def)
  from assms fk ev have nrm: "\<not> linalg_norm e < tolerance"
    by (auto simp: ik_iteration_def bind_def split: if_splits)
  from assms fk ev nrm obtain J where cj: "compute_jacobian dh q = Inr J"
    by (cases "compute_jacobian dh q") (simp_all add: ik_iteration_def bind_def)
  from assms fk ev nrm cj obtain P where pv: "pinv J = Some P"
    by (cases "pinv J") (simp_all add: ik_iteration_def bind_def)
  from assms fk ev nrm cj pv obtain d where mv: "matvec P e = Inr d"
    by (cases "matvec P e") (simp_all add: ik_iteration_def bind_def)
  from assms fk ev nrm cj pv mv have ia: "iadd q (map ((*) learning_rate) d) = Inr q'"
    by (cases "iadd q (map ((*) learning_rate) d)") (simp_all add: ik_iteration_def bind_def)
  have "length d = length q \<longrightarrow> q' = map2 (\<lambda>x y. x + learning_rate * y) q d"
  proof
    assume l: "length d = length q"
    with ia have "q' = map2 (+) q (map ((*) learning_rate) d)"
      by (simp add: iadd_def)
    also have "\<dots> = map2 (\<lambda>x y. x + learning_rate * y) q d"
      by (simp add: zip_map2 comp_def case_prod_unfold)
    finally show "q' = map2 (\<lambda>x y. x + learning_rate * y) q d" .
  qed
  with fk ev nrm cj pv mv ia show ?thesis by blast
qed

lemma ik_iteration_singular:
  assumes "forward_kinematics dh q = Inr pose" and "error_vector pose T = Inr e"
    and "\<not> linalg_norm e < tolerance" and "compute_jacobian dh q = Inr J" and "pinv J = None"
  shows "ik_iteration pinv dh T q = Inr (Stop Singular)"
  using assms by (simp add: ik_iteration_def bind_def)

text \<open>
  Claim C8. For every target pose and initial guess the loop of \<open>inverse_kinematics\<close>
  makes at most 100 passes. A pass that goes on to the next one has applied the fixed
  update \<open>joint_vector += 0.1 * (pinv(jacobian) @ error_vector)\<close>, with no damping and no
  clamping. When 100 passes have gone by without a return, the function returns the
  failure value \<^verbatim>\<open>None\<close> after the loop (line 112).
\<close>

theorem inverse_kinematics_bounded:
  "snd (ik_loop pinv dh T 0 q) \<le> max_iterations \<and> max_iterations = 100 \<and>
   (ik_iteration pinv dh T q = Inr (Continue q') \<longrightarrow>
      (\<exists>pose e J P d. forward_kinematics dh q = Inr pose \<and> error_vector pose T = Inr e \<and>
         \<not> linalg_norm e < tolerance \<and> compute_jacobian dh q = Inr J \<and> pinv J = Some P \<and>
         matvec P e = Inr d \<and> iadd q (map ((*) learning_rate) d) = Inr q' \<and>
         (length d = length q \<longrightarrow> q' = map2 (\<lambda>x y. x + learning_rate * y) q d)) \<and>
      learning_rate = 1 / 10) \<and>
   (ik_iterate pinv dh T max_iterations q = Some q'' \<longrightarrow>
      ik_loop pinv dh T 0 q = (Inr Exhausted, max_iterations) \<and>
      inverse_kinematics pinv dh T (Some q) = Inr None)"
proof (intro conjI impI)
  show "snd (ik_loop pinv dh T 0 q) \<le> max_iterations"
    using ik_loop_count [of pinv dh T 0 q] by simp
  show "max_iterations = 100" by (simp add: max_iterations_def)
next
  assume "ik_iteration pinv dh T q = Inr (Continue q')"
  then show "\<exists>pose e J P d. forward_kinematics dh q = Inr pose \<and> error_vector pose T = Inr e \<and>
         \<not> linalg_norm e < tolerance \<and> compute_jacobian dh q = Inr J \<and> pinv J = Some P \<and>
         matvec P e = Inr d \<and> iadd q (map ((*) learning_rate) d) = Inr q' \<and>
         (length d = length q \<longrightarrow> q' = map2 (\<lambda>x y. x + learning_rate * y) q d)"
    by (rule ik_iteration_continueD)
  show "learning_rate = 1 / 10" by (simp add: learning_rate_def)
next
  assume a: "ik_iterate pinv dh T max_iterations q = Some q''"
  then have "ik_loop pinv dh T 0 q = ik_loop pinv dh T (0 + max_iterations) q''"
    by (rule ik_loop_iterate) simp
  then show l: "ik_loop pinv dh T 0 q = (Inr Exhausted, max_iterations)"
    by (simp add: ik_loop_exhausted)
  then show "inverse_kinematics pinv dh T (Some q) = Inr None"
    by (simp add: inverse_kinematics_def)
qed


lemma error_vector_far:
  "error_vector [[1, 0, 0, 1], [0, 1, 0, 0], [0, 0, 1, 2], [0, 0, 0, 1]]
     [[1, 0, 0, 2], [0, 1, 0, 0], [0, 0, 1, 2], [0, 0, 0, 1]] = Inr [1, 0, 0, 0, 0, 0]"
  by (simp add: error_vector_def linalg_inv_def square_def cofactor_def det.simps drop_at_def
      upt_rec bind_def matmul_def mat_mul_def col_def dot_def ncols_def)

lemma linalg_norm_far: "\<not> linalg_norm [1, 0, 0, 0, 0, 0] < tolerance"
  by (simp add: linalg_norm_def tolerance_def)

lemma compute_jacobian_one:
  "\<exists>J. compute_jacobian [(1, 0, 2, 0)] [0] = Inr J \<and>
       col J 0 = [0, sin epsilon / epsilon, 0, 0, 0, sin epsilon / epsilon]"
  using compute_jacobian_columns [of "[0]" "[(1, 0, 2, 0)]"]
  by (auto simp: central_difference_example)

text \<open>
  The target is out of reach along \<open>x\<close>, and the column of the Jacobian has no \<open>x\<close>
  component: the step is zero and the iterate stays where it is.
\<close>

lemma ik_iteration_far_column:
  "ik_iteration pinv_column [(1, 0, 2, 0)]
     [[1, 0, 0, 2], [0, 1, 0, 0], [0, 0, 1, 2], [0, 0, 0, 1]] [0] = Inr (Continue [0])"
proof -
  obtain J where J: "compute_jacobian [(1, 0, 2, 0)] [0] = Inr J"
    and c: "col J 0 = [0, sin epsilon / epsilon, 0, 0, 0, sin epsilon / epsilon]"
    using compute_jacobian_one by blast
  obtain u v where pc: "pinv_column J = Some [[0, u, 0, 0, 0, v]]"
    by (simp add: pinv_column_def c Let_def)
  have mv: "matvec [[0, u, 0, 0, 0, v]] [1, 0, 0, 0, 0, 0] = Inr [0]"
    by (simp add: matvec_def ncols_def dot_def)
  show ?thesis
    by (simp add: ik_iteration_def fk_example bind_def error_vector_far linalg_norm_far J pc mv
        iadd_def)
qed

lemma ik_iteration_far_raises:
  "ik_iteration pinv_raises [(1, 0, 2, 0)]
     [[1, 0, 0, 2], [0, 1, 0, 0], [0, 0, 1, 2], [0, 0, 0, 1]] [0] = Inr (Stop Singular)"
proof -
  obtain J where J: "compute_jacobian [(1, 0, 2, 0)] [0] = Inr J"
    using compute_jacobian_one by blast
  show ?thesis
    by (rule ik_iteration_singular [OF fk_example error_vector_far linalg_norm_far J])
      (simp add: pinv_raises_def)
qed

lemma ik_iterate_far_column:
  "ik_iterate pinv_column [(1, 0, 2, 0)]
     [[1, 0, 0, 2], [0, 1, 0, 0], [0, 0, 1, 2], [0, 0, 0, 1]] k [0] = Some [0]"
  by (induction k) (simp_all add: ik_iteration_far_column)

theorem inverse_kinematics_bounded_witness:
  "ik_loop pinv_column [(1, 0, 2, 0)]
     [[1, 0, 0, 2], [0, 1, 0, 0], [0, 0, 1, 2], [0, 0, 0, 1]] 0 [0] = (Inr Exhausted, 100) \<and>
   inverse_kinematics pinv_column [(1, 0, 2, 0)]
     [[1, 0, 0, 2], [0, 1, 0, 0], [0, 0, 1, 2], [0, 0, 0, 1]] (Some [0]) = Inr None \<and>
   ik_iteration pinv_column [(1, 0, 2, 0)]
     [[1, 0, 0, 2], [0, 1, 0, 0], [0, 0, 1, 2], [0, 0, 0, 1]] [0] = Inr (Continue [0]) \<and>
   [0 :: real] = map2 (\<lambda>x y. x + learning_rate * y) [0] [0]"
  using inverse_kinematics_bounded [of pinv_column "[(1, 0, 2, 0)]"
      "[[1, 0, 0, 2], [0, 1, 0, 0], [0, 0, 1, 2], [0, 0, 0, 1]]" "[0]" "[0]" "[0]"]
  by (simp add: ik_iterate_far_column ik_iteration_far_column)

text \<open>
  Claim C3, as the code has it. When \<^verbatim>\<open>np.linalg.pinv\<close> raises in pass \<open>k + 1\<close>, the
  solver stops in that pass and returns \<^verbatim>\<open>None\<close>; when the 100 passes are used up it
  returns \<^verbatim>\<open>None\<close> as well. The two failures are the same value for the caller.
\<close>

theorem inverse_kinematics_singular_none:
  "(ik_iterate pinv dh T k q0 = Some q \<and> k < max_iterations \<and>
    forward_kinematics dh q = Inr pose \<and> error_vector pose T = Inr e \<and>
    \<not> linalg_norm e < tolerance \<and> compute_jacobian dh q = Inr J \<and> pinv J = None \<longrightarrow>
      ik_loop pinv dh T 0 q0 = (Inr Singular, Suc k) \<and>
      inverse_kinematics pinv dh T (Some q0) = Inr None) \<and>
   (fst (ik_loop pinv dh T 0 q0) = Inr Exhausted \<longrightarrow>
      inverse_kinematics pinv dh T (Some q0) = Inr None) \<and>
   ik_value Singular = ik_value Exhausted"
proof (intro conjI impI)
  assume a: "ik_iterate pinv dh T k q0 = Some q \<and> k < max_iterations \<and>
    forward_kinematics dh q = Inr pose \<and> error_vector pose T = Inr e \<and>
    \<not> linalg_norm e < tolerance \<and> compute_jacobian dh q = Inr J \<and> pinv J = None"
  then have stop: "ik_iteration pinv dh T q = Inr (Stop Singular)"
    by (intro ik_iteration_singular [of dh q pose T e J]) simp_all
  from a have "ik_loop pinv dh T 0 q0 = ik_loop pinv dh T (0 + k) q"
    by (intro ik_loop_iterate) simp_all
  also have "\<dots> = (Inr Singular, Suc k)"
    using a stop by (simp add: ik_loop_stop)
  finally show l: "ik_loop pinv dh T 0 q0 = (Inr Singular, Suc k)" .
  then show "inverse_kinematics pinv dh T (Some q0) = Inr None"
    by (simp add: inverse_kinematics_def)
next
  assume "fst (ik_loop pinv dh T 0 q0) = Inr Exhausted"
  then show "inverse_kinematics pinv dh T (Some q0) = Inr None"
    by (simp add: inverse_kinematics_def)
next
  show "ik_value Singular = ik_value Exhausted" by simp
qed

theorem inverse_kinematics_singular_none_witness:
  "ik_loop pinv_raises [(1, 0, 2, 0)]
     [[1, 0, 0, 2], [0, 1, 0, 0], [0, 0, 1, 2], [0, 0, 0, 1]] 0 [0] = (Inr Singular, 1) \<and>
   inverse_kinematics pinv_raises [(1, 0, 2, 0)]
     [[1, 0, 0, 2], [0, 1, 0, 0], [0, 0, 1, 2], [0, 0, 0, 1]] (Some [0]) = Inr None"
proof -
  obtain J where J: "compute_jacobian [(1, 0, 2, 0)] [0] = Inr J"
    using compute_jacobian_one by blast
  show ?thesis
    using inverse_kinematics_singular_none [of pinv_raises "[(1, 0, 2, 0)]"
      "[[1, 0, 0, 2], [0, 1, 0, 0], [0, 0, 1, 2], [0, 0, 0, 1]]" 0 "[0]" "[0]"
      "[[1, 0, 0, 1], [0, 1, 0, 0], [0, 0, 1, 2], [0, 0, 0, 1]]" "[1, 0, 0, 0, 0, 0]" J]
    by (simp add: fk_example error_vector_far linalg_norm_far J pinv_raises_def
        max_iterations_def)
qed

text \<open>
  Claim C3 as stated fails: on the one-joint chain with an unreachable target, the call
  whose pseudo-inverse raises and the call that uses up its 100 passes return the same
  value.
\<close>

theorem inverse_kinematics_failures_coincide:
  "fst (ik_loop pinv_raises [(1, 0, 2, 0)]
     [[1, 0, 0, 2], [0, 1, 0, 0], [0, 0, 1, 2], [0, 0, 0, 1]] 0 [0]) = Inr Singular \<and>
   fst (ik_loop pinv_column [(1, 0, 2, 0)]
     [[1, 0, 0, 2], [0, 1, 0, 0], [0, 0, 1, 2], [0, 0, 0, 1]] 0 [0]) = Inr Exhausted \<and>
   inverse_kinematics pinv_raises [(1, 0, 2, 0)]
     [[1, 0, 0, 2], [0, 1, 0, 0], [0, 0, 1, 2], [0, 0, 0, 1]] (Some [0]) =
   inverse_kinematics pinv_column [(1, 0, 2, 0)]
     [[1, 0, 0, 2], [0, 1, 0, 0], [0, 0, 1, 2], [0, 0, 0, 1]] (Some [0])"
proof -
  let ?T = "[[1, 0, 0, 2], [0, 1, 0, 0], [0, 0, 1, 2], [0, 0, 0, 1 :: real]]"
  have r: "ik_loop pinv_raises [(1, 0, 2, 0)] ?T 0 [0] = (Inr Singular, Suc 0)"
    by (rule ik_loop_stop) (simp_all add: max_iterations_def ik_iteration_far_raises)
  have "ik_loop pinv_column [(1, 0, 2, 0)] ?T 0 [0] =
      ik_loop pinv_column [(1, 0, 2, 0)] ?T (0 + max_iterations) [0]"
    by (rule ik_loop_iterate) (simp_all add: ik_iterate_far_column)
  then have z: "ik_loop pinv_column [(1, 0, 2, 0)] ?T 0 [0] = (Inr Exhausted, max_iterations)"
    by (simp add: ik_loop_exhausted)
  show ?thesis
    by (simp add: r z inverse_kinematics_def)
qed

section \<open>The caller's initial guess\<close>

lemma ik_iteration_converged:
  "ik_iteration pinv dh T q = Inr (Stop (Converged q')) \<Longrightarrow> q' = q"
  by (auto simp: ik_iteration_def bind_def split: sum.splits if_splits option.splits)

lemma ik_loop_store_frame:
  "r \<noteq> ja \<Longrightarrow> cells (snd (ik_loop_store pinv dh T j ja s)) r = cells s r"
proof (induction pinv dh T j ja s rule: ik_loop_store.induct)
  case (1 pinv dh T j ja s)
  show ?case
  proof (cases "max_iterations \<le> j")
    case True
    then show ?thesis by (subst ik_loop_store.simps) simp
  next
    case False
    show ?thesis
    proof (cases "ik_iteration pinv dh T (contents s ja)")
      case (Inl e)
      with False show ?thesis by (subst ik_loop_store.simps) simp
    next
      case (Inr st)
      show ?thesis
      proof (cases st)
        case (Stop x)
        with Inr False show ?thesis
          by (subst ik_loop_store.simps) (cases x, simp_all)
      next
        case (Continue q')
        with Inr False "1.prems"
        have "cells (snd (ik_loop_store pinv dh T (Suc j) ja
                (s\<lparr>cells := (cells s)(ja \<mapsto> q')\<rparr>))) r =
              cells (s\<lparr>cells := (cells s)(ja \<mapsto> q')\<rparr>) r"
          by (intro "1.IH") simp_all
        with Inr Continue False "1.prems" show ?thesis
          by (subst ik_loop_store.simps) simp
      qed
    qed
  qed
qed

lemma ik_loop_store_refines:
  "map_sum id (map_option (contents (snd (ik_loop_store pinv dh T j ja s))))
     (fst (ik_loop_store pinv dh T j ja s)) =
   map_sum id ik_value (fst (ik_loop pinv dh T j (contents s ja)))"
proof (induction pinv dh T j ja s rule: ik_loop_store.induct)
  case (1 pinv dh T j ja s)
  show ?case
  proof (cases "max_iterations \<le> j")
    case True
    then show ?thesis
      by (subst ik_loop_store.simps, subst (2) ik_loop_store.simps)
        (simp add: ik_loop_exhausted)
  next
    case False
    then have lt: "j < max_iterations" by simp
    show ?thesis
    proof (cases "ik_iteration pinv dh T (contents s ja)")
      case (Inl e)
      with False lt show ?thesis
        by (subst ik_loop_store.simps, subst (2) ik_loop_store.simps)
          (simp add: ik_loop_error)
    next
      case (Inr st)
      show ?thesis
      proof (cases st)
        case (Stop x)
        show ?thesis
        proof (cases x)
          case (Converged q')
          with Inr Stop have "q' = contents s ja"
            using ik_iteration_converged by blast
          with Inr Stop Converged False lt show ?thesis
            by (subst ik_loop_store.simps, subst (2) ik_loop_store.simps)
              (simp add: ik_loop_stop)
        next
          case Singular
          with Inr Stop False lt show ?thesis
            by (subst ik_loop_store.simps, subst (2) ik_loop_store.simps)
              (simp add: ik_loop_stop)
        next
          case Exhausted
          with Inr Stop False lt show ?thesis
            by (subst ik_loop_store.simps, subst (2) ik_loop_store.simps)
              (simp add: ik_loop_stop)
        qed
      next
        case (Continue q')
        let ?s = "s\<lparr>cells := (cells s)(ja \<mapsto> q')\<rparr>"
        have c: "contents ?s ja = q'" by (simp add: contents_def)
        from Inr Continue False
        have "map_sum id (map_option (contents (snd (ik_loop_store pinv dh T (Suc j) ja ?s))))
               (fst (ik_loop_store pinv dh T (Suc j) ja ?s)) =
              map_sum id ik_value (fst (ik_loop pinv dh T (Suc j) (contents ?s ja)))"
          by (intro "1.IH") simp_all
        with Inr Continue False lt c show ?thesis
          by (subst ik_loop_store.simps, subst (2) ik_loop_store.simps)
            (simp add: ik_loop_continue)
      qed
    qed
  qed
qed

text \<open>
  Claim C10. A call of \<open>inverse_kinematics\<close> with a caller's array as initial guess
  leaves that array, and every array the caller had, as it was, whether the call returns
  a solution, returns \<^verbatim>\<open>None\<close> or raises: the loop writes only the array made by
  \<^verbatim>\<open>initial_guess.copy()\<close>. The result on the store is that of the function on values.
\<close>

theorem inverse_kinematics_keeps_guess:
  "g < next_ref s \<and> cells s g = Some q0 \<longrightarrow>
   (case inverse_kinematics_store pinv dh T (Some g) s of (res, s') \<Rightarrow>
      cells s' g = Some q0 \<and>
      (\<forall>r<next_ref s. cells s' r = cells s r) \<and>
      map_sum id (map_option (contents s')) res = inverse_kinematics pinv dh T (Some q0))"
proof
  assume a: "g < next_ref s \<and> cells s g = Some q0"
  let ?ja = "next_ref s"
  let ?s2 = "s\<lparr>cells := (cells s)(?ja \<mapsto> q0), next_ref := Suc ?ja\<rparr>"
  let ?run = "ik_loop_store pinv dh T 0 ?ja ?s2"
  from a have run: "inverse_kinematics_store pinv dh T (Some g) s = ?run"
    by (simp add: inverse_kinematics_store_def alloc_def contents_def)
  have frame: "\<forall>r<next_ref s. cells (snd ?run) r = cells s r"
  proof (intro allI impI)
    fix r assume "r < next_ref s"
    then have "r \<noteq> ?ja" by simp
    then have "cells (snd ?run) r = cells ?s2 r" by (rule ik_loop_store_frame)
    with \<open>r \<noteq> ?ja\<close> show "cells (snd ?run) r = cells s r" by simp
  qed
  have c: "contents ?s2 ?ja = q0" by (simp add: contents_def)
  have ref: "map_sum id (map_option (contents (snd ?run))) (fst ?run) =
      inverse_kinematics pinv dh T (Some q0)"
    using ik_loop_store_refines [of pinv dh T 0 ?ja ?s2] c
    by (cases "fst (ik_loop pinv dh T 0 q0)") (simp_all add: inverse_kinematics_def)
  from a frame have "cells (snd ?run) g = Some q0" by simp
  with frame ref show "case inverse_kinematics_store pinv dh T (Some g) s of (res, s') \<Rightarrow>
      cells s' g = Some q0 \<and>
      (\<forall>r<next_ref s. cells s' r = cells s r) \<and>
      map_sum id (map_option (contents s')) res = inverse_kinematics pinv dh T (Some q0)"
    unfolding run by (simp add: case_prod_unfold)
qed


lemma inverse_kinematics_far_column:
  "inverse_kinematics pinv_column [(1, 0, 2, 0)]
     [[1, 0, 0, 2], [0, 1, 0, 0], [0, 0, 1, 2], [0, 0, 0, 1]] (Some [0]) = Inr None"
proof -
  let ?T = "[[1, 0, 0, 2], [0, 1, 0, 0], [0, 0, 1, 2], [0, 0, 0, 1 :: real]]"
  have "ik_loop pinv_column [(1, 0, 2, 0)] ?T 0 [0] =
      ik_loop pinv_column [(1, 0, 2, 0)] ?T (0 + max_iterations) [0]"
    by (rule ik_loop_iterate) (simp_all add: ik_iterate_far_column)
  then show ?thesis
    by (simp add: ik_loop_exhausted inverse_kinematics_def)
qed

theorem inverse_kinematics_keeps_guess_witness:
  "(0 :: nat) < next_ref example_store \<and> cells example_store 0 = Some [0] \<and>
   (case inverse_kinematics_store pinv_column [(1, 0, 2, 0)]
      [[1, 0, 0, 2], [0, 1, 0, 0], [0, 0, 1, 2], [0, 0, 0, 1]] (Some 0) example_store of
      (res, s') \<Rightarrow> cells s' 0 = Some [0] \<and>
        map_sum id (map_option (contents s')) res = Inr None)"
  using inverse_kinematics_keeps_guess [of 0 example_store "[0]" pinv_column "[(1, 0, 2, 0)]"
      "[[1, 0, 0, 2], [0, 1, 0, 0], [0, 0, 1, 2], [0, 0, 0, 1]]"]
  by (simp add: example_store_def inverse_kinematics_far_column case_prod_unfold)

end
